theory Spec2Isabelle
  imports Complex_Main "HOL-Library.AList" "HOL-Library.Sublist"
begin

section \<open>Data model\<close>

text \<open>
  The services under \<^verbatim>\<open>src/tenants\<close> are request handlers that open nested spans,
  draw pseudorandom delays and touch an in-memory catalog. The model makes every effect
  explicit: the wall clock, the random source, the span stack, the exporter queue and the
  catalog are fields of one state record that each operation takes and returns.
  Python floats (prices, seconds) are idealised as rationals; logger calls are left out.
\<close>

datatype status = UNSET | OK | ERROR

datatype attr_value = AStr string | AInt int | ANum rat | ABool bool

text \<open>The exceptions the handlers and the library calls they make can raise.\<close>

datatype exn =
    HTTPException int string
  | RuntimeError string
  | ValueError string
  | IndexError string
  | ZeroDivisionError string

fun detail :: "exn \<Rightarrow> string" where
  "detail (HTTPException code d) = d"
| "detail (RuntimeError d) = d"
| "detail (ValueError d) = d"
| "detail (IndexError d) = d"
| "detail (ZeroDivisionError d) = d"

datatype harness_error = DoubleEndError | NotStartedError

record span =
  trace_id :: nat
  span_id :: nat
  parent_span_id :: "nat option"
  name :: string
  start_time :: rat
  end_time :: "rat option"
  attributes :: "string \<rightharpoonup> attr_value"
  status :: status
  error_detail :: "exn option"

text \<open>One entry of \<^verbatim>\<open>BOOKS_DB\<close> (bookshop/main.py, lines 74-80).\<close>

record book =
  ident :: int
  title :: string
  author :: string
  price :: rat
  stock :: int

text \<open>\<^verbatim>\<open>class OrderRequest(BaseModel)\<close> (bookshop/main.py, lines 68-71).\<close>

record OrderRequest =
  book_id :: int
  quantity :: int
  customer_email :: string

text \<open>
  The state of one service process. \<open>rand\<close> is the explicit random source (its
  \<open>i\<close>-th raw draw) and \<open>rand_pos\<close> the number of draws consumed so far;
  \<open>current\<close> is the stack of open spans, innermost first; \<open>queue\<close> holds the
  completed spans awaiting export, oldest first; \<open>BOOKS_DB\<close> is the catalog, a
  dictionary in insertion order.
\<close>

record world =
  clock :: rat
  rand :: "nat \<Rightarrow> nat"
  rand_pos :: nat
  next_id :: nat
  current :: "span list"
  queue :: "span list"
  resource :: "string \<rightharpoonup> string"
  BOOKS_DB :: "(int \<times> book) list"

section \<open>Computations that may raise\<close>

type_synonym 'a prog = "world \<Rightarrow> (exn + 'a) \<times> world"

definition ret :: "'a \<Rightarrow> 'a prog" where
  "ret v w = (Inr v, w)"

definition raise_exn :: "exn \<Rightarrow> 'a prog" where
  "raise_exn e w = (Inl e, w)"

definition bnd :: "'a prog \<Rightarrow> ('a \<Rightarrow> 'b prog) \<Rightarrow> 'b prog" where
  "bnd m f w = (case m w of (Inl e, w') \<Rightarrow> (Inl e, w') | (Inr v, w') \<Rightarrow> f v w')"

definition thn :: "'a prog \<Rightarrow> 'b prog \<Rightarrow> 'b prog" where
  "thn m n = bnd m (\<lambda>_. n)"

text \<open>\<^verbatim>\<open>for x in xs: body(x)\<close>: the first exception ends the loop.\<close>

fun for_each :: "'a list \<Rightarrow> ('a \<Rightarrow> unit prog) \<Rightarrow> unit prog" where
  "for_each [] body = ret ()"
| "for_each (x # xs) body = thn (body x) (for_each xs body)"

text \<open>\<^verbatim>\<open>try: m except Exception as e: handler(e)\<close>.\<close>

definition try_except :: "'a prog \<Rightarrow> (exn \<Rightarrow> 'a prog) \<Rightarrow> 'a prog" where
  "try_except m handler w = (case m w of (Inl e, w') \<Rightarrow> handler e w' | (Inr v, w') \<Rightarrow> (Inr v, w'))"

section \<open>The random source and the clock\<close>

definition draw :: "nat prog" where
  "draw w = (Inr (rand w (rand_pos w)), w\<lparr>rand_pos := Suc (rand_pos w)\<rparr>)"

text \<open>\<^verbatim>\<open>random.choice(seq)\<close>: a uniform index below \<open>len(seq)\<close>.\<close>

definition random_choice :: "'a list \<Rightarrow> 'a prog" where
  "random_choice xs =
     (if xs = [] then raise_exn (IndexError ''Cannot choose from an empty sequence'')
      else bnd draw (\<lambda>r. ret (xs ! (r mod length xs))))"

text \<open>\<^verbatim>\<open>random.randint(a, b)\<close>: a uniform integer of the closed interval.\<close>

definition randint :: "int \<Rightarrow> int \<Rightarrow> int prog" where
  "randint a b =
     (if b < a then raise_exn (ValueError ''empty range for randrange()'')
      else bnd draw (\<lambda>r. ret (a + int r mod (b - a + 1))))"

text \<open>\<^verbatim>\<open>random.random()\<close>: a multiple of \<open>2^-53\<close> in \<open>[0, 1)\<close>.\<close>

definition unit_float :: "nat \<Rightarrow> rat" where
  "unit_float r = of_nat (r mod 2 ^ 53) / 2 ^ 53"

definition random_random :: "rat prog" where
  "random_random = bnd draw (\<lambda>r. ret (unit_float r))"

text \<open>\<^verbatim>\<open>random.uniform(a, b)\<close> is \<open>a + (b - a) * random()\<close>.\<close>

definition uniform :: "rat \<Rightarrow> rat \<Rightarrow> rat prog" where
  "uniform a b = bnd random_random (\<lambda>u. ret (a + (b - a) * u))"

text \<open>\<^verbatim>\<open>time.sleep(secs)\<close> suspends the caller; a negative length raises.\<close>

definition time_sleep :: "rat \<Rightarrow> unit prog" where
  "time_sleep secs w =
     (if secs < 0 then (Inl (ValueError ''sleep length must be non-negative''), w)
      else (Inr (), w\<lparr>clock := clock w + secs\<rparr>))"

section \<open>The tracing harness\<close>

text \<open>
  Modelled from the spec: the tracer object (\<^verbatim>\<open>tracer.start_as_current_span\<close>,
  \<^verbatim>\<open>set_attribute\<close>, \<^verbatim>\<open>record_exception\<close>, \<^verbatim>\<open>set_status\<close>) and the batch
  exporter come from the OpenTelemetry packages the services import, which are not part of
  the repository. The definitions of this section follow the Span Tree Builder, Trace
  Context Propagation and Batch Exporter contracts of the specification (4.1, 4.3, 4.4):
  a span handle is the span's id; a new span inherits the trace id of the current span
  and names it as parent, or mints a trace id when none is active; \<open>end_span\<close> stamps
  the end time, finalises the status (default \<open>OK\<close>, an \<open>ERROR\<close> already recorded
  stays) and hands the span to the exporter queue; ending a handle that is not open is
  signalled as an error and changes nothing.
\<close>

definition start_span :: "string \<Rightarrow> world \<Rightarrow> nat \<times> world" where
  "start_span nm w =
     (case current w of
        [] \<Rightarrow>
          (Suc (next_id w),
           w\<lparr>next_id := next_id w + 2,
             current := [\<lparr>trace_id = next_id w, span_id = Suc (next_id w),
                          parent_span_id = None, name = nm, start_time = clock w,
                          end_time = None, attributes = Map.empty, status = UNSET,
                          error_detail = None\<rparr>]\<rparr>)
      | p # ps \<Rightarrow>
          (next_id w,
           w\<lparr>next_id := next_id w + 1,
             current := \<lparr>trace_id = trace_id p, span_id = next_id w,
                         parent_span_id = Some (span_id p), name = nm,
                         start_time = clock w, end_time = None, attributes = Map.empty,
                         status = UNSET, error_detail = None\<rparr> # p # ps\<rparr>))"

definition update_span :: "nat \<Rightarrow> (span \<Rightarrow> span) \<Rightarrow> world \<Rightarrow> world" where
  "update_span h f w =
     w\<lparr>current := map (\<lambda>s. if span_id s = h then f s else s) (current w)\<rparr>"

definition set_attribute :: "nat \<Rightarrow> string \<Rightarrow> attr_value \<Rightarrow> unit prog" where
  "set_attribute h k v w =
     (Inr (), update_span h (\<lambda>s. s\<lparr>attributes := (attributes s)(k \<mapsto> v)\<rparr>) w)"

definition record_exception :: "nat \<Rightarrow> exn \<Rightarrow> unit prog" where
  "record_exception h e w = (Inr (), update_span h (\<lambda>s. s\<lparr>error_detail := Some e\<rparr>) w)"

definition set_status :: "nat \<Rightarrow> status \<Rightarrow> unit prog" where
  "set_status h st w = (Inr (), update_span h (\<lambda>s. s\<lparr>status := st\<rparr>) w)"

definition record_failure :: "nat \<Rightarrow> exn \<Rightarrow> world \<Rightarrow> world" where
  "record_failure h e w =
     update_span h (\<lambda>s. s\<lparr>status := ERROR, error_detail := Some e\<rparr>) w"

definition finalize :: "status \<Rightarrow> status \<Rightarrow> status" where
  "finalize recorded given = (if recorded = UNSET then given else recorded)"

definition end_span :: "nat \<Rightarrow> status \<Rightarrow> world \<Rightarrow> (harness_error + unit) \<times> world" where
  "end_span h st w =
     (case find (\<lambda>s. span_id s = h) (current w) of
        None \<Rightarrow> (Inl (if h < next_id w then DoubleEndError else NotStartedError), w)
      | Some s \<Rightarrow>
          (Inr (),
           w\<lparr>current := filter (\<lambda>s. span_id s \<noteq> h) (current w),
             queue := queue w @
               [s\<lparr>end_time := Some (clock w), status := finalize (status s) st\<rparr>]\<rparr>))"

text \<open>
  The \<^verbatim>\<open>with tracer.start_as_current_span(name) as h:\<close> block: the span is ended on
  every exit path; an exception that leaves the block is recorded on the span, which is
  closed with status \<open>ERROR\<close>, and propagates.
\<close>

definition start_as_current_span :: "string \<Rightarrow> (nat \<Rightarrow> 'a prog) \<Rightarrow> 'a prog" where
  "start_as_current_span nm body w =
     (case start_span nm w of
        (h, w1) \<Rightarrow>
          (case body h w1 of
             (Inr v, w2) \<Rightarrow> (Inr v, snd (end_span h OK w2))
           | (Inl e, w2) \<Rightarrow> (Inl e, snd (end_span h OK (record_failure h e w2)))))"

text \<open>A flush hands the pending spans, with the process's resource metadata, to the collector.\<close>

record batch =
  batch_resource :: "string \<rightharpoonup> string"
  batch_spans :: "span list"

definition flush :: "world \<Rightarrow> batch \<times> world" where
  "flush w = (\<lparr>batch_resource = resource w, batch_spans = queue w\<rparr>, w\<lparr>queue := []\<rparr>)"

section \<open>The bookshop service\<close>

text \<open>Decimal rendering of integers, as the f-strings of the source produce it.\<close>

fun str_nat :: "nat \<Rightarrow> string" where
  "str_nat n =
     (if n < 10 then [char_of (48 + n)]
      else str_nat (n div 10) @ [char_of (48 + n mod 10)])"

declare str_nat.simps [simp del]

definition str_int :: "int \<Rightarrow> string" where
  "str_int i = (if i < 0 then CHR ''-'' # str_nat (nat (- i)) else str_nat (nat i))"

text \<open>\<^verbatim>\<open>simulate_db_query\<close> (lines 102-107): it returns nothing.\<close>

definition simulate_db_query :: "string \<Rightarrow> int option \<Rightarrow> unit prog" where
  "simulate_db_query operation delay_ms =
     bnd (case delay_ms of None \<Rightarrow> randint 10 50 | Some d \<Rightarrow> ret d)
       (\<lambda>d. time_sleep (of_int d / 1000))"

text \<open>\<^verbatim>\<open>simulate_cache_check\<close> (lines 109-113).\<close>

definition simulate_cache_check :: "string \<Rightarrow> bool prog" where
  "simulate_cache_check key = random_choice [True, False, False]"

definition get_books_db :: "(int \<times> book) list prog" where
  "get_books_db w = (Inr (BOOKS_DB w), w)"

text \<open>\<^verbatim>\<open>get_book\<close> (lines 173-201).\<close>

definition get_book :: "int \<Rightarrow> book prog" where
  "get_book bid =
     start_as_current_span ''get_book'' (\<lambda>parent_span.
       thn (set_attribute parent_span ''book_id'' (AInt bid))
      (thn (start_as_current_span ''cache_lookup'' (\<lambda>_.
              simulate_cache_check (''book_'' @ str_int bid)))
      (start_as_current_span ''database_query'' (\<lambda>db_span.
         thn (set_attribute db_span ''query_type'' (AStr ''SELECT''))
        (thn (set_attribute db_span ''table'' (AStr ''books''))
        (thn (set_attribute db_span ''book_id'' (AInt bid))
        (thn (simulate_db_query (''SELECT * FROM books WHERE id='' @ str_int bid) None)
        (bnd get_books_db (\<lambda>db.
           case map_of db bid of
             None \<Rightarrow>
               thn (set_attribute db_span ''error'' (ABool True))
                 (raise_exn (HTTPException 404 ''Book not found''))
           | Some book \<Rightarrow> ret book)))))))))"

text \<open>\<^verbatim>\<open>root\<close> and \<^verbatim>\<open>health\<close> (lines 119-131); the service name comes from the environment.\<close>

definition root_bookshop :: "string \<Rightarrow> (string \<times> string) list prog" where
  "root_bookshop SERVICE_NAME =
     start_as_current_span ''root_handler'' (\<lambda>span.
       thn (set_attribute span ''endpoint'' (AStr ''/''))
         (ret [(''status'', ''ok''), (''service'', SERVICE_NAME), (''version'', ''1.0.0'')]))"

definition health :: "string \<Rightarrow> (string \<times> string) list prog" where
  "health SERVICE_NAME =
     start_as_current_span ''health_check'' (\<lambda>span.
       thn (set_attribute span ''health_status'' (AStr ''healthy''))
         (ret [(''status'', ''healthy''), (''service'', SERVICE_NAME)]))"

text \<open>\<^verbatim>\<open>str.lower()\<close> on ASCII text and the substring test \<^verbatim>\<open>x in y\<close>.\<close>

definition lower_char :: "char \<Rightarrow> char" where
  "lower_char c =
     (let n = (of_char c :: nat)
      in if 65 \<le> n \<and> n \<le> 90 then char_of (n + 32) else c)"

definition lower :: "string \<Rightarrow> string" where
  "lower s = map lower_char s"

text \<open>\<^verbatim>\<open>list_books\<close> (lines 133-171): the result is the pair of \<open>books\<close> and \<open>count\<close>.\<close>

definition list_books :: "string option \<Rightarrow> rat option \<Rightarrow> (book list \<times> nat) prog" where
  "list_books author_filter min_price =
     start_as_current_span ''list_books'' (\<lambda>parent_span.
       thn (set_attribute parent_span ''filter.author''
              (AStr (case author_filter of None \<Rightarrow> ''none''
                     | Some a \<Rightarrow> if a = [] then ''none'' else a)))
      (thn (set_attribute parent_span ''filter.min_price''
              (case min_price of None \<Rightarrow> AInt 0
               | Some p \<Rightarrow> if p = 0 then AInt 0 else ANum p))
      (thn (start_as_current_span ''cache_lookup'' (\<lambda>_. simulate_cache_check ''books_list''))
      (bnd (start_as_current_span ''database_query'' (\<lambda>db_span.
              thn (set_attribute db_span ''query_type'' (AStr ''SELECT''))
             (thn (set_attribute db_span ''table'' (AStr ''books''))
             (thn (simulate_db_query ''SELECT * FROM books'' None)
             (bnd get_books_db (\<lambda>db.
                let books = map snd db;
                    books = (case author_filter of None \<Rightarrow> books
                             | Some a \<Rightarrow>
                                 if a = [] then books
                                 else filter (\<lambda>b. sublist (lower a) (lower (author b))) books);
                    books = (case min_price of None \<Rightarrow> books
                             | Some p \<Rightarrow>
                                 if p = 0 then books else filter (\<lambda>b. p \<le> price b) books)
                in thn (set_attribute db_span ''result_count'' (AInt (int (length books))))
                     (ret books)))))))
        (\<lambda>books.
           thn (start_as_current_span ''serialize_response'' (\<lambda>_. time_sleep (5 / 1000)))
          (thn (set_attribute parent_span ''books_returned'' (AInt (int (length books))))
               (ret (books, length books))))))))"

text \<open>The response of a confirmed order (lines 268-274).\<close>

record order_confirmation =
  order_id :: int
  book_title :: string
  ordered_quantity :: int
  total :: rat
  order_status :: string

definition set_books_db :: "(int \<times> book) list \<Rightarrow> unit prog" where
  "set_books_db db w = (Inr (), w\<lparr>BOOKS_DB := db\<rparr>)"

text \<open>
  \<^verbatim>\<open>create_order\<close> (lines 203-274). In the source \<open>book\<close> is the catalog's own entry,
  so \<^verbatim>\<open>book["stock"] -= order.quantity\<close> changes the catalog; the model writes the
  changed entry back under its key.
\<close>

definition create_order :: "OrderRequest \<Rightarrow> order_confirmation prog" where
  "create_order order =
     start_as_current_span ''create_order'' (\<lambda>parent_span.
       thn (set_attribute parent_span ''book_id'' (AInt (book_id order)))
      (thn (set_attribute parent_span ''quantity'' (AInt (quantity order)))
      (thn (set_attribute parent_span ''customer_email'' (AStr (customer_email order)))
      (bnd (start_as_current_span ''validate_book'' (\<lambda>validate_span.
              thn (simulate_db_query
                     (''SELECT * FROM books WHERE id='' @ str_int (book_id order)) None)
             (bnd get_books_db (\<lambda>db.
                case map_of db (book_id order) of
                  None \<Rightarrow>
                    thn (set_attribute validate_span ''error'' (ABool True))
                      (raise_exn (HTTPException 404 ''Book not found''))
                | Some book \<Rightarrow> ret book))))
        (\<lambda>book.
      thn (start_as_current_span ''check_inventory'' (\<lambda>inventory_span.
             thn (simulate_db_query ''SELECT stock FROM books'' None)
            (thn (set_attribute inventory_span ''available_stock'' (AInt (stock book)))
            (thn (set_attribute inventory_span ''requested_quantity'' (AInt (quantity order)))
                 (if stock book < quantity order
                  then thn (set_attribute inventory_span ''error'' (ABool True))
                         (raise_exn (HTTPException 400 ''Insufficient stock''))
                  else ret ())))))
      (bnd (start_as_current_span ''calculate_total'' (\<lambda>calc_span.
              let total = price book * of_int (quantity order)
              in thn (set_attribute calc_span ''unit_price'' (ANum (price book)))
                (thn (set_attribute calc_span ''total_amount'' (ANum total))
                     (ret total))))
        (\<lambda>total.
      thn (start_as_current_span ''process_payment'' (\<lambda>payment_span.
             thn (set_attribute payment_span ''amount'' (ANum total))
            (thn (set_attribute payment_span ''payment_method'' (AStr ''credit_card''))
                 (bnd (randint 100 300) (\<lambda>d.
                    simulate_db_query ''INSERT INTO payments'' (Some d))))))
      (bnd (start_as_current_span ''update_inventory'' (\<lambda>update_span.
              let book = book\<lparr>stock := stock book - quantity order\<rparr>
              in bnd get_books_db (\<lambda>db.
                 thn (set_books_db (AList.update (book_id order) book db))
                (thn (simulate_db_query (''UPDATE books SET stock='' @ str_int (stock book)) None)
                (thn (set_attribute update_span ''new_stock'' (AInt (stock book)))
                     (ret book))))))
        (\<lambda>book.
      thn (start_as_current_span ''send_confirmation_email'' (\<lambda>email_span.
             thn (set_attribute email_span ''recipient'' (AStr (customer_email order)))
                 (time_sleep (5 / 100))))
      (bnd (randint 10000 99999) (\<lambda>oid.
      thn (set_attribute parent_span ''order_id'' (AInt oid))
          (ret \<lparr>order_id = oid, book_title = title book,
                 ordered_quantity = quantity order, total = total,
                 order_status = ''confirmed''\<rparr>))))))))))))"

text \<open>\<^verbatim>\<open>get_stats\<close> (lines 276-310).\<close>

record stats =
  total_books :: nat
  total_stock :: int
  avg_price :: rat
  max_price :: rat
  popular_books :: "string list"

text \<open>\<^verbatim>\<open>round(x, 2)\<close>, ties to the even neighbour.\<close>

definition round_half_even :: "rat \<Rightarrow> int" where
  "round_half_even q =
     (let f = \<lfloor>q\<rfloor>; d = q - of_int f
      in if d < 1 / 2 then f else if 1 / 2 < d then f + 1 else if even f then f else f + 1)"

definition round2 :: "rat \<Rightarrow> rat" where
  "round2 x = of_int (round_half_even (x * 100)) / 100"

definition get_stats :: "stats prog" where
  "get_stats =
     start_as_current_span ''get_stats'' (\<lambda>parent_span.
       bnd (start_as_current_span ''calculate_inventory_stats'' (\<lambda>_.
              thn (simulate_db_query ''SELECT SUM(stock) FROM books'' None)
                (bnd get_books_db (\<lambda>db. ret (sum_list (map (stock \<circ> snd) db))))))
         (\<lambda>total_stock.
       bnd (start_as_current_span ''calculate_value_stats'' (\<lambda>_.
              thn (simulate_db_query ''SELECT AVG(price), MAX(price) FROM books'' None)
                (bnd get_books_db (\<lambda>db.
                   case map (price \<circ> snd) db of
                     [] \<Rightarrow> raise_exn (ZeroDivisionError ''division by zero'')
                   | p # ps \<Rightarrow>
                       ret (sum_list (p # ps) / of_nat (length db), fold max ps p)))))
         (\<lambda>(avg_price, max_price).
       bnd (start_as_current_span ''find_popular_books'' (\<lambda>_.
              thn (simulate_db_query ''SELECT * FROM books ORDER BY sales DESC LIMIT 3'' None)
                (bnd get_books_db (\<lambda>db. ret (take 3 (sort_key stock (map snd db)))))))
         (\<lambda>popular.
       bnd get_books_db (\<lambda>db.
       let stats = \<lparr>total_books = length db, total_stock = total_stock,
                     avg_price = round2 avg_price, max_price = max_price,
                     popular_books = map title popular\<rparr>
       in thn (set_attribute parent_span ''stats.total_books'' (AInt (int (total_books stats))))
            (ret stats))))))"

section \<open>The e-commerce service\<close>

text \<open>\<^verbatim>\<open>root\<close> (e-commerce/main.py, lines 66-69) opens no span.\<close>

definition root_ecommerce :: "(string \<times> string) list prog" where
  "root_ecommerce = ret [(''status'', ''ok'')]"

text \<open>\<^verbatim>\<open>do_work\<close> (e-commerce/main.py, lines 72-102).\<close>

definition do_work :: "(string \<times> string) list prog" where
  "do_work =
     thn (start_as_current_span ''work.parent'' (\<lambda>parent.
            thn (set_attribute parent ''work.type'' (AStr ''demo''))
           (thn (set_attribute parent ''tenant.id'' (AStr ''example-tenant''))
           (thn (for_each [0, 1, 2] (\<lambda>i.
                   start_as_current_span (''work.child.'' @ str_int i) (\<lambda>child.
                     bnd (uniform (1 / 10) (1 / 2)) (\<lambda>delay.
                     thn (set_attribute child ''iteration'' (AInt i))
                    (thn (set_attribute child ''delay.seconds'' (ANum delay))
                         (time_sleep delay))))))
           (bnd random_random (\<lambda>r.
              if r < 3 / 10
              then try_except (raise_exn (RuntimeError ''simulated failure''))
                     (\<lambda>e. thn (record_exception parent e) (set_status parent ERROR))
              else ret ()))))))
       (ret [(''result'', ''done'')])"

section \<open>Resource metadata and requests\<close>

text \<open>\<^verbatim>\<open>os.getenv(key, default)\<close> over an explicit environment.\<close>

definition getenv :: "(string \<rightharpoonup> string) \<Rightarrow> string \<Rightarrow> string \<Rightarrow> string" where
  "getenv env key dflt = (case env key of None \<Rightarrow> dflt | Some v \<Rightarrow> v)"

text \<open>The \<^verbatim>\<open>resource\<close> of bookshop/main.py, lines 40-44.\<close>

definition resource_bookshop :: "(string \<rightharpoonup> string) \<Rightarrow> (string \<rightharpoonup> string)" where
  "resource_bookshop env =
     [''service.name'' \<mapsto> getenv env ''OTEL_SERVICE_NAME'' ''bookshop-service'',
      ''service.version'' \<mapsto> ''0.1.0'',
      ''deployment.environment'' \<mapsto> ''development'']"

text \<open>The \<^verbatim>\<open>resource\<close> of e-commerce/main.py, lines 37-40.\<close>

definition resource_ecommerce :: "(string \<rightharpoonup> string) \<Rightarrow> (string \<rightharpoonup> string)" where
  "resource_ecommerce env =
     [''service.name'' \<mapsto> getenv env ''OTEL_SERVICE_NAME'' ''poddle-demo-app'',
      ''service.version'' \<mapsto> ''0.1.0'']"

text \<open>The catalog at start-up (bookshop/main.py, lines 74-80).\<close>

definition BOOKS_DB_initial :: "(int \<times> book) list" where
  "BOOKS_DB_initial =
     [(1, \<lparr>ident = 1, title = ''The Great Gatsby'', author = ''F. Scott Fitzgerald'',
            price = 1299 / 100, stock = 45\<rparr>),
      (2, \<lparr>ident = 2, title = ''1984'', author = ''George Orwell'',
            price = 1499 / 100, stock = 32\<rparr>),
      (3, \<lparr>ident = 3, title = ''To Kill a Mockingbird'', author = ''Harper Lee'',
            price = 1350 / 100, stock = 28\<rparr>),
      (4, \<lparr>ident = 4, title = ''Pride and Prejudice'', author = ''Jane Austen'',
            price = 1199 / 100, stock = 52\<rparr>),
      (5, \<lparr>ident = 5, title = ''The Catcher in the Rye'', author = ''J.D. Salinger'',
            price = 1250 / 100, stock = 19\<rparr>)]"

text \<open>
  A process right after start-up: the provider holds the resource, no span is open,
  nothing is queued; the clock and the random source are whatever the machine gives.
\<close>

definition startup :: "(string \<rightharpoonup> string) \<Rightarrow> (int \<times> book) list \<Rightarrow> rat \<Rightarrow> (nat \<Rightarrow> nat) \<Rightarrow> world" where
  "startup res db t0 rnd =
     \<lparr>clock = t0, rand = rnd, rand_pos = 0, next_id = 0, current = [], queue = [],
      resource = res, BOOKS_DB = db\<rparr>"

text \<open>The bookshop right after start-up, with a fixed clock reading and random source.\<close>

definition bookshop_at_startup :: world where
  "bookshop_at_startup =
     startup (resource_bookshop Map.empty) BOOKS_DB_initial 0 (\<lambda>i. 7 * i + 1)"

text \<open>The routes of both services; a request runs its handler and the response is dropped.\<close>

datatype request =
    GET_root
  | GET_health
  | GET_books "string option" "rat option"
  | GET_book int
  | POST_orders OrderRequest
  | GET_stats
  | GET_root_ecommerce
  | GET_work

definition discard :: "'a prog \<Rightarrow> unit prog" where
  "discard m = bnd m (\<lambda>_. ret ())"

fun run_handler :: "string \<Rightarrow> request \<Rightarrow> unit prog" where
  "run_handler sn GET_root = discard (root_bookshop sn)"
| "run_handler sn GET_health = discard (health sn)"
| "run_handler sn (GET_books a p) = discard (list_books a p)"
| "run_handler sn (GET_book bid) = discard (get_book bid)"
| "run_handler sn (POST_orders order) = discard (create_order order)"
| "run_handler sn GET_stats = discard get_stats"
| "run_handler sn GET_root_ecommerce = discard root_ecommerce"
| "run_handler sn GET_work = discard do_work"


text \<open>Any finite sequence of requests to one process, served one after the other.\<close>

fun run_requests :: "string \<Rightarrow> request list \<Rightarrow> world \<Rightarrow> world" where
  "run_requests sn [] w = w"
| "run_requests sn (req # reqs) w = run_requests sn reqs (snd (run_handler sn req w))"

section \<open>Well-formed traces\<close>

text \<open>A completed span whose interval is in order and ends no later than \<open>t\<close>.\<close>

definition closed_by :: "rat \<Rightarrow> span \<Rightarrow> bool" where
  "closed_by t s = (case end_time s of None \<Rightarrow> False | Some e \<Rightarrow> start_time s \<le> e \<and> e \<le> t)"

text \<open>The interval of the completed span \<open>p\<close> contains that of the completed span \<open>c\<close>.\<close>

definition contained :: "span \<Rightarrow> span \<Rightarrow> bool" where
  "contained p c =
     (case end_time p of
        None \<Rightarrow> False
      | Some ep \<Rightarrow>
          (case end_time c of
             None \<Rightarrow> False
           | Some ec \<Rightarrow> start_time p \<le> start_time c \<and> ec \<le> ep))"

text \<open>
  What the claims ask of one span \<open>c\<close> among the exported spans \<open>q\<close>: it has ended, not
  before it started, and when it names a parent, that parent is among \<open>q\<close> and its
  interval contains the interval of \<open>c\<close>.
\<close>

definition span_ok :: "span list \<Rightarrow> span \<Rightarrow> bool" where
  "span_ok q c =
     ((case end_time c of None \<Rightarrow> False | Some e \<Rightarrow> start_time c \<le> e) \<and>
      (case parent_span_id c of
         None \<Rightarrow> True
       | Some pid \<Rightarrow> list_ex (\<lambda>p. span_id p = pid \<and> contained p c) q))"

text \<open>The stack of open spans: each names the next one as its parent and started no earlier.\<close>

fun chain :: "span list \<Rightarrow> bool" where
  "chain [] = True"
| "chain [s] = (parent_span_id s = None)"
| "chain (c # p # ps) =
     (parent_span_id c = Some (span_id p) \<and> start_time p \<le> start_time c \<and> chain (p # ps))"

text \<open>
  What the invariant says of a completed span \<open>c\<close>, at time \<open>t\<close>, with open spans
  \<open>cur\<close> and completed spans \<open>q\<close>: it ended by \<open>t\<close>, and its parent is either still
  open and started no later, or completed with an interval that contains that of \<open>c\<close>.
\<close>

definition queue_ok :: "rat \<Rightarrow> span list \<Rightarrow> span list \<Rightarrow> span \<Rightarrow> bool" where
  "queue_ok t cur q c =
     (closed_by t c \<and>
      (case parent_span_id c of
         None \<Rightarrow> True
       | Some pid \<Rightarrow>
           list_ex (\<lambda>p. span_id p = pid \<and> start_time p \<le> start_time c) cur \<or>
           list_ex (\<lambda>p. span_id p = pid \<and> contained p c) q))"

text \<open>The invariant of the tracer state that every handler maintains.\<close>

definition tracer_inv :: "world \<Rightarrow> bool" where
  "tracer_inv w =
     (chain (current w) \<and>
      distinct (map span_id (current w @ queue w)) \<and>
      list_all (\<lambda>s. span_id s < next_id w) (current w @ queue w) \<and>
      list_all (\<lambda>s. start_time s \<le> clock w \<and> end_time s = None) (current w) \<and>
      list_all (queue_ok (clock w) (current w) (queue w)) (queue w))"

text \<open>
  A computation is scoped when it maintains the invariant and leaves the stack of open
  spans as it found it, whether it returns or raises.
\<close>

definition scoped :: "'a prog \<Rightarrow> bool" where
  "scoped m =
     (\<forall>w. tracer_inv w \<longrightarrow>
        tracer_inv (snd (m w)) \<and>
        map span_id (current (snd (m w))) = map span_id (current w))"


section \<open>The catalog\<close>

definition stocks_nonneg :: "(int \<times> book) list \<Rightarrow> bool" where
  "stocks_nonneg db = list_all (\<lambda>(k, b). 0 \<le> stock b) db"

text \<open>
  A computation keeps the catalog's stocks non-negative and, when it returns, its value
  satisfies \<open>Q\<close>.
\<close>

definition keeps_stock :: "'a prog \<Rightarrow> ('a \<Rightarrow> bool) \<Rightarrow> bool" where
  "keeps_stock m Q =
     (\<forall>w. stocks_nonneg (BOOKS_DB w) \<longrightarrow>
        stocks_nonneg (BOOKS_DB (snd (m w))) \<and>
        (case fst (m w) of Inl e \<Rightarrow> True | Inr v \<Rightarrow> Q v))"

section \<open>The tracer invariant is maintained\<close>

lemma chain_map:
  assumes "\<And>s. span_id (g s) = span_id s" "\<And>s. parent_span_id (g s) = parent_span_id s"
    "\<And>s. start_time (g s) = start_time s"
  shows "chain (map g xs) = chain xs"
  by (induction xs rule: chain.induct) (simp_all add: assms)

lemma chain_tl: "chain (s # rest) \<Longrightarrow> chain rest"
  by (cases rest) simp_all

lemma chain_parent:
  "chain (s # rest) \<Longrightarrow>
     (case parent_span_id s of None \<Rightarrow> True
      | Some pid \<Rightarrow> list_ex (\<lambda>p. span_id p = pid \<and> start_time p \<le> start_time s) rest)"
  by (cases rest) auto

lemma list_ex_map_same: "(\<And>s. P (g s) = P s) \<Longrightarrow> list_ex P (map g xs) = list_ex P xs"
  by (induction xs) simp_all

lemma list_all_map_same: "(\<And>s. P (g s) = P s) \<Longrightarrow> list_all P (map g xs) = list_all P xs"
  by (induction xs) simp_all

lemma ids_below_mono:
  "list_all (\<lambda>s. span_id s < n) xs \<Longrightarrow> n \<le> m \<Longrightarrow> list_all (\<lambda>s. span_id s < m) xs"
  by (induction xs) auto

lemma closed_by_mono: "closed_by t c \<Longrightarrow> t \<le> t' \<Longrightarrow> closed_by t' c"
  by (auto simp: closed_by_def split: option.splits)

lemma queue_ok_push: "queue_ok t cur q c \<Longrightarrow> queue_ok t (s # cur) q c"
  by (auto simp: queue_ok_def split: option.splits)

lemma queue_ok_later: "queue_ok t cur q c \<Longrightarrow> t \<le> t' \<Longrightarrow> queue_ok t' cur q c"
  by (auto simp: queue_ok_def intro: closed_by_mono)

lemma tracer_inv_start_span:
  assumes inv: "tracer_inv w"
  shows "tracer_inv (snd (start_span nm w)) \<and>
         (\<exists>s. current (snd (start_span nm w)) = s # current w \<and> span_id s = fst (start_span nm w))"
proof -
  from inv have ch: "chain (current w)"
    and d: "distinct (map span_id (current w @ queue w))"
    and lt: "list_all (\<lambda>s. span_id s < next_id w) (current w @ queue w)"
    and op: "list_all (\<lambda>s. start_time s \<le> clock w \<and> end_time s = None) (current w)"
    and qu: "list_all (queue_ok (clock w) (current w) (queue w)) (queue w)"
    by (simp_all add: tracer_inv_def)
  have fresh: "n \<notin> span_id ` set (current w @ queue w)" if "next_id w \<le> n" for n
  proof
    assume "n \<in> span_id ` set (current w @ queue w)"
    then obtain x where "x \<in> set (current w @ queue w)" "span_id x = n" by auto
    with lt have "n < next_id w" by (auto simp: list_all_iff)
    with that show False by simp
  qed
  show ?thesis
  proof (cases "current w")
    case Nil
    let ?s = "\<lparr>trace_id = next_id w, span_id = Suc (next_id w), parent_span_id = None, name = nm,
        start_time = clock w, end_time = None, attributes = Map.empty, status = UNSET,
        error_detail = None\<rparr>"
    let ?w1 = "w\<lparr>next_id := next_id w + 2, current := [?s]\<rparr>"
    have e: "start_span nm w = (Suc (next_id w), ?w1)" using Nil by (simp add: start_span_def)
    have "tracer_inv ?w1"
      unfolding tracer_inv_def
    proof (intro conjI)
      show "chain (current ?w1)" by simp
      show "distinct (map span_id (current ?w1 @ queue ?w1))"
        using d Nil fresh[of "Suc (next_id w)"] by auto
      show "list_all (\<lambda>s. span_id s < next_id ?w1) (current ?w1 @ queue ?w1)"
        using ids_below_mono[OF lt, of "next_id w + 2"] Nil by simp
      show "list_all (\<lambda>s. start_time s \<le> clock ?w1 \<and> end_time s = None) (current ?w1)"
        by simp
      show "list_all (queue_ok (clock ?w1) (current ?w1) (queue ?w1)) (queue ?w1)"
        using qu Nil by (auto simp: list_all_iff intro: queue_ok_push)
    qed
    with e Nil show ?thesis by simp
  next
    case (Cons p ps)
    let ?s = "\<lparr>trace_id = trace_id p, span_id = next_id w, parent_span_id = Some (span_id p),
        name = nm, start_time = clock w, end_time = None, attributes = Map.empty, status = UNSET,
        error_detail = None\<rparr>"
    let ?w1 = "w\<lparr>next_id := next_id w + 1, current := ?s # p # ps\<rparr>"
    have e: "start_span nm w = (next_id w, ?w1)" using Cons by (simp add: start_span_def)
    from op Cons have p: "start_time p \<le> clock w" by simp
    have "tracer_inv ?w1"
      unfolding tracer_inv_def
    proof (intro conjI)
      show "chain (current ?w1)" using ch Cons p by simp
      show "distinct (map span_id (current ?w1 @ queue ?w1))"
        using d Cons fresh[of "next_id w"] by auto
      show "list_all (\<lambda>s. span_id s < next_id ?w1) (current ?w1 @ queue ?w1)"
        using ids_below_mono[OF lt, of "next_id w + 1"] Cons by simp
      show "list_all (\<lambda>s. start_time s \<le> clock ?w1 \<and> end_time s = None) (current ?w1)"
        using op Cons by simp
      show "list_all (queue_ok (clock ?w1) (current ?w1) (queue ?w1)) (queue ?w1)"
        using qu Cons by (auto simp: list_all_iff intro: queue_ok_push)
    qed
    with e Cons show ?thesis by simp
  qed
qed

lemma queue_ok_map:
  assumes "\<And>s. span_id (g s) = span_id s" "\<And>s. start_time (g s) = start_time s"
  shows "queue_ok t (map g cur) q c = queue_ok t cur q c"
proof -
  have "\<And>pid. list_ex (\<lambda>p. span_id p = pid \<and> start_time p \<le> start_time c) (map g cur)
      = list_ex (\<lambda>p. span_id p = pid \<and> start_time p \<le> start_time c) cur"
    by (rule list_ex_map_same) (simp add: assms)
  then show ?thesis by (simp add: queue_ok_def split: option.splits)
qed

lemma tracer_inv_update_span:
  assumes inv: "tracer_inv w"
    and f: "\<And>s. span_id (f s) = span_id s" "\<And>s. parent_span_id (f s) = parent_span_id s"
      "\<And>s. start_time (f s) = start_time s" "\<And>s. end_time (f s) = end_time s"
  shows "tracer_inv (update_span h f w) \<and>
         map span_id (current (update_span h f w)) = map span_id (current w)"
proof -
  define g where "g = (\<lambda>s. if span_id s = h then f s else s)"
  have g: "\<And>s. span_id (g s) = span_id s" "\<And>s. parent_span_id (g s) = parent_span_id s"
      "\<And>s. start_time (g s) = start_time s" "\<And>s. end_time (g s) = end_time s"
    by (simp_all add: f g_def)
  have u: "update_span h f w = w\<lparr>current := map g (current w)\<rparr>"
    by (simp add: update_span_def g_def)
  have ids: "map span_id (map g (current w)) = map span_id (current w)"
    by (simp add: g)
  have ch: "chain (map g (current w)) = chain (current w)"
    by (rule chain_map) (simp_all add: g)
  have al1: "list_all (\<lambda>s. span_id s < next_id w) (map g (current w))
      = list_all (\<lambda>s. span_id s < next_id w) (current w)"
    by (rule list_all_map_same) (simp add: g)
  have al2: "list_all (\<lambda>s. start_time s \<le> clock w \<and> end_time s = None) (map g (current w))
     = list_all (\<lambda>s. start_time s \<le> clock w \<and> end_time s = None) (current w)"
    by (rule list_all_map_same) (simp add: g)
  have qo: "queue_ok (clock w) (map g (current w)) (queue w) = queue_ok (clock w) (current w) (queue w)"
    by (rule ext) (simp add: queue_ok_map g)
  from inv have "tracer_inv (w\<lparr>current := map g (current w)\<rparr>)"
    unfolding tracer_inv_def by (simp add: ids ch al1 al2 qo del: map_map)
  with u ids show ?thesis by simp
qed

lemma end_span_top:
  assumes cur: "current w = s # rest" and d: "distinct (map span_id (current w))"
  shows "end_span (span_id s) st w =
     (Inr (), w\<lparr>current := rest,
                queue := queue w @ [s\<lparr>end_time := Some (clock w), status := finalize (status s) st\<rparr>]\<rparr>)"
proof -
  from cur d have "span_id s \<notin> span_id ` set rest" by simp
  then have "\<forall>x\<in>set rest. span_id x \<noteq> span_id s" by (metis imageI)
  then have "filter (\<lambda>x. span_id x \<noteq> span_id s) rest = rest"
    by (simp add: filter_id_conv)
  with cur show ?thesis by (simp add: end_span_def)
qed

lemma queue_ok_pop:
  assumes c: "queue_ok t (s # rest) q c" and s': "span_id s' = span_id s"
    "start_time s' = start_time s" "end_time s' = Some t"
  shows "queue_ok t rest (q @ [s']) c"
proof (cases "parent_span_id c")
  case None
  with c show ?thesis by (simp add: queue_ok_def)
next
  case (Some pid)
  from c have cb: "closed_by t c" by (simp add: queue_ok_def)
  have "contained s' c" if "start_time s \<le> start_time c"
    using that cb s' by (auto simp: contained_def closed_by_def split: option.splits)
  with c Some cb s' show ?thesis by (auto simp: queue_ok_def)
qed

lemma tracer_inv_end_span:
  assumes inv: "tracer_inv w" and cur: "current w = s # rest"
  shows "tracer_inv (snd (end_span (span_id s) st w)) \<and>
         current (snd (end_span (span_id s) st w)) = rest"
proof -
  define s' where "s' = s\<lparr>end_time := Some (clock w), status := finalize (status s) st\<rparr>"
  have s': "span_id s' = span_id s" "start_time s' = start_time s" "end_time s' = Some (clock w)"
    "parent_span_id s' = parent_span_id s"
    by (simp_all add: s'_def)
  let ?w' = "w\<lparr>current := rest, queue := queue w @ [s']\<rparr>"
  from inv have ch: "chain (current w)"
    and d: "distinct (map span_id (current w @ queue w))"
    and lt: "list_all (\<lambda>s. span_id s < next_id w) (current w @ queue w)"
    and op: "list_all (\<lambda>s. start_time s \<le> clock w \<and> end_time s = None) (current w)"
    and qu: "list_all (queue_ok (clock w) (current w) (queue w)) (queue w)"
    by (simp_all add: tracer_inv_def)
  from d have d': "distinct (map span_id (current w))" by simp
  have e: "end_span (span_id s) st w = (Inr (), ?w')"
    unfolding s'_def by (rule end_span_top[OF cur d'])
  from op cur have st: "start_time s \<le> clock w" by simp
  have "tracer_inv ?w'"
    unfolding tracer_inv_def
  proof (intro conjI)
    show "chain (current ?w')" using chain_tl ch cur by simp
    show "distinct (map span_id (current ?w' @ queue ?w'))" using d cur s' by auto
    show "list_all (\<lambda>s. span_id s < next_id ?w') (current ?w' @ queue ?w')"
      using lt cur s' by (auto simp: list_all_iff)
    show "list_all (\<lambda>s. start_time s \<le> clock ?w' \<and> end_time s = None) (current ?w')"
      using op cur by simp
    have new: "queue_ok (clock w) rest (queue w @ [s']) s'"
      using chain_parent[of s rest] ch cur st s'
      by (auto simp: queue_ok_def closed_by_def split: option.splits)
    have old: "queue_ok (clock w) rest (queue w @ [s']) c" if "c \<in> set (queue w)" for c
      using qu that cur s' by (auto simp: list_all_iff intro!: queue_ok_pop)
    show "list_all (queue_ok (clock ?w') (current ?w') (queue ?w')) (queue ?w')"
      using new old by (simp add: list_all_iff)
  qed
  with e show ?thesis by simp
qed

section \<open>Orders keep the stock non-negative\<close>





lemma ks_weaken: "keeps_stock m R \<Longrightarrow> (\<And>v. R v \<Longrightarrow> Q v) \<Longrightarrow> keeps_stock m Q"
  by (auto simp: keeps_stock_def split: sum.splits)


lemma BOOKS_DB_end_span [simp]: "BOOKS_DB (snd (end_span h st w)) = BOOKS_DB w"
  by (simp add: end_span_def split: option.splits)

lemma BOOKS_DB_update_span [simp]: "BOOKS_DB (update_span h f w) = BOOKS_DB w"
  by (simp add: update_span_def)










section \<open>Every handler is scoped\<close>

lemma scopedI:
  assumes "\<And>w. tracer_inv w \<Longrightarrow> tracer_inv (snd (m w)) \<and>
     map span_id (current (snd (m w))) = map span_id (current w)"
  shows "scoped m"
  using assms by (simp add: scoped_def)

lemma scopedD:
  "scoped m \<Longrightarrow> tracer_inv w \<Longrightarrow> m w = (r, w') \<Longrightarrow>
     tracer_inv w' \<and> map span_id (current w') = map span_id (current w)"
  by (auto simp: scoped_def)

lemma scoped_ret: "scoped (ret v)"
  by (simp add: scoped_def ret_def)

lemma scoped_raise_exn: "scoped (raise_exn e)"
  by (simp add: scoped_def raise_exn_def)

lemma scoped_bnd:
  assumes m: "scoped m" and f: "\<And>v. scoped (f v)"
  shows "scoped (bnd m f)"
proof (rule scopedI)
  fix w :: world assume inv: "tracer_inv w"
  obtain r w' where mw: "m w = (r, w')" by (cases "m w")
  from scopedD[OF m inv mw] have w': "tracer_inv w'"
    and ids: "map span_id (current w') = map span_id (current w)" by simp_all
  show "tracer_inv (snd (bnd m f w)) \<and>
        map span_id (current (snd (bnd m f w))) = map span_id (current w)"
  proof (cases r)
    case (Inl e)
    with mw w' ids show ?thesis by (simp add: bnd_def)
  next
    case (Inr v)
    obtain r2 w2 where fw: "f v w' = (r2, w2)" by (cases "f v w'")
    from scopedD[OF f w' fw] ids mw Inr fw show ?thesis by (simp add: bnd_def)
  qed
qed

lemma scoped_thn: "scoped m \<Longrightarrow> scoped n \<Longrightarrow> scoped (thn m n)"
  unfolding thn_def by (rule scoped_bnd)

lemma scoped_try_except:
  assumes m: "scoped m" and f: "\<And>e. scoped (handler e)"
  shows "scoped (try_except m handler)"
proof (rule scopedI)
  fix w :: world assume inv: "tracer_inv w"
  obtain r w' where mw: "m w = (r, w')" by (cases "m w")
  from scopedD[OF m inv mw] have w': "tracer_inv w'"
    and ids: "map span_id (current w') = map span_id (current w)" by simp_all
  show "tracer_inv (snd (try_except m handler w)) \<and>
        map span_id (current (snd (try_except m handler w))) = map span_id (current w)"
  proof (cases r)
    case (Inr v)
    with mw w' ids show ?thesis by (simp add: try_except_def)
  next
    case (Inl e)
    obtain r2 w2 where fw: "handler e w' = (r2, w2)" by (cases "handler e w'")
    from scopedD[OF f w' fw] ids mw Inl fw show ?thesis by (simp add: try_except_def)
  qed
qed

lemma scoped_for_each: "(\<And>x. scoped (body x)) \<Longrightarrow> scoped (for_each xs body)"
  by (induction xs) (simp_all add: scoped_ret scoped_thn)

lemma scoped_update:
  assumes "\<And>s. span_id (f s) = span_id s" "\<And>s. parent_span_id (f s) = parent_span_id s"
      "\<And>s. start_time (f s) = start_time s" "\<And>s. end_time (f s) = end_time s"
  shows "scoped (\<lambda>w. (Inr (), update_span h f w))"
  by (rule scopedI) (simp add: tracer_inv_update_span assms)

lemma scoped_set_attribute: "scoped (set_attribute h k v)"
  unfolding set_attribute_def by (rule scoped_update) simp_all

lemma scoped_record_exception: "scoped (record_exception h e)"
  unfolding record_exception_def by (rule scoped_update) simp_all

lemma scoped_set_status: "scoped (set_status h st)"
  unfolding set_status_def by (rule scoped_update) simp_all

lemma tracer_inv_later:
  assumes "tracer_inv w" "0 \<le> d"
  shows "tracer_inv (w\<lparr>clock := clock w + d\<rparr>)"
proof -
  from assms have "list_all (\<lambda>s. start_time s \<le> clock w + d \<and> end_time s = None) (current w)"
    by (auto simp: tracer_inv_def list_all_iff)
  moreover from assms have "list_all (queue_ok (clock w + d) (current w) (queue w)) (queue w)"
    by (auto simp: tracer_inv_def list_all_iff intro: queue_ok_later)
  ultimately show ?thesis using assms(1) by (simp add: tracer_inv_def)
qed

lemma scoped_time_sleep: "scoped (time_sleep d)"
  by (rule scopedI) (simp add: time_sleep_def tracer_inv_later)

lemma tracer_inv_frame:
  "tracer_inv w \<Longrightarrow> clock w' = clock w \<Longrightarrow> next_id w' = next_id w \<Longrightarrow>
     current w' = current w \<Longrightarrow> queue w' = queue w \<Longrightarrow> tracer_inv w'"
  by (simp add: tracer_inv_def)

lemma scoped_draw: "scoped draw"
  by (rule scopedI) (simp add: draw_def tracer_inv_def)

lemma scoped_get_books_db: "scoped get_books_db"
  by (rule scopedI) (simp add: get_books_db_def)

lemma scoped_set_books_db: "scoped (set_books_db db)"
  by (rule scopedI) (simp add: set_books_db_def tracer_inv_def)

lemma scoped_random_choice: "scoped (random_choice xs)"
  unfolding random_choice_def by (simp add: scoped_raise_exn scoped_bnd scoped_draw scoped_ret)

lemma scoped_randint: "scoped (randint a b)"
  unfolding randint_def by (simp add: scoped_raise_exn scoped_bnd scoped_draw scoped_ret)

lemma scoped_random_random: "scoped random_random"
  unfolding random_random_def by (simp add: scoped_bnd scoped_draw scoped_ret)

lemma scoped_uniform: "scoped (uniform a b)"
  unfolding uniform_def by (simp add: scoped_bnd scoped_random_random scoped_ret)

lemma scoped_simulate_db_query: "scoped (simulate_db_query operation d)"
  unfolding simulate_db_query_def
  by (cases d) (simp_all add: scoped_bnd scoped_randint scoped_ret scoped_time_sleep)

lemma scoped_simulate_cache_check: "scoped (simulate_cache_check key)"
  unfolding simulate_cache_check_def by (rule scoped_random_choice)

lemma scoped_start_as_current_span:
  assumes body: "\<And>h. scoped (body h)"
  shows "scoped (start_as_current_span nm body)"
proof (rule scopedI)
  fix w :: world assume inv: "tracer_inv w"
  obtain h w1 where st: "start_span nm w = (h, w1)" by (cases "start_span nm w")
  from tracer_inv_start_span[OF inv, of nm] st obtain s where
    w1: "tracer_inv w1" and c1: "current w1 = s # current w" and h: "span_id s = h"
    by auto
  obtain r w2 where b: "body h w1 = (r, w2)" by (cases "body h w1")
  from scopedD[OF body w1 b] c1 h have w2: "tracer_inv w2"
    and ids2: "map span_id (current w2) = h # map span_id (current w)" by simp_all
  have fin: "tracer_inv (snd (end_span h OK w3)) \<and>
      map span_id (current (snd (end_span h OK w3))) = map span_id (current w)"
    if w3: "tracer_inv w3" and ids3: "map span_id (current w3) = h # map span_id (current w)"
    for w3
  proof -
    from ids3 obtain s3 rest3 where c3: "current w3 = s3 # rest3" and h3: "span_id s3 = h"
      and r3: "map span_id rest3 = map span_id (current w)"
      by (cases "current w3") auto
    from tracer_inv_end_span[OF w3 c3, of OK] h3 r3 show ?thesis by simp
  qed
  show "tracer_inv (snd (start_as_current_span nm body w)) \<and>
        map span_id (current (snd (start_as_current_span nm body w))) = map span_id (current w)"
  proof (cases r)
    case (Inr v)
    with st b fin[OF w2 ids2] show ?thesis by (simp add: start_as_current_span_def)
  next
    case (Inl e)
    have "tracer_inv (record_failure h e w2) \<and>
        map span_id (current (record_failure h e w2)) = map span_id (current w2)"
      unfolding record_failure_def by (rule tracer_inv_update_span[OF w2]) simp_all
    with ids2 have "tracer_inv (record_failure h e w2)"
      "map span_id (current (record_failure h e w2)) = h # map span_id (current w)" by simp_all
    from fin[OF this] st b Inl show ?thesis by (simp add: start_as_current_span_def)
  qed
qed

lemmas scoped_rules = scoped_ret scoped_raise_exn scoped_bnd scoped_thn scoped_try_except
  scoped_for_each scoped_set_attribute scoped_record_exception scoped_set_status
  scoped_time_sleep scoped_get_books_db scoped_set_books_db scoped_randint scoped_random_random
  scoped_uniform scoped_simulate_db_query scoped_simulate_cache_check
  scoped_start_as_current_span

lemma scoped_discard: "scoped m \<Longrightarrow> scoped (discard m)"
  unfolding discard_def by (simp add: scoped_bnd scoped_ret)

lemma scoped_root_bookshop: "scoped (root_bookshop sn)"
  unfolding root_bookshop_def by (intro scoped_rules)

lemma scoped_health: "scoped (health sn)"
  unfolding health_def by (intro scoped_rules)

lemma scoped_get_book: "scoped (get_book bid)"
  unfolding get_book_def by (auto intro!: scoped_rules split: option.split)

lemma scoped_list_books: "scoped (list_books a p)"
  unfolding list_books_def Let_def by (auto intro!: scoped_rules split: option.split)

lemma scoped_create_order: "scoped (create_order order)"
  unfolding create_order_def Let_def by (auto intro!: scoped_rules split: option.split)

lemma scoped_get_stats: "scoped get_stats"
  unfolding get_stats_def Let_def by (auto intro!: scoped_rules split: option.split list.split prod.split)

lemma scoped_do_work: "scoped do_work"
  unfolding do_work_def by (auto intro!: scoped_rules)

lemma scoped_run_handler: "scoped (run_handler sn req)"
  by (cases req)
    (simp_all add: scoped_discard scoped_root_bookshop scoped_health scoped_get_book
      scoped_list_books scoped_create_order scoped_get_stats scoped_do_work
      root_ecommerce_def scoped_ret)

section \<open>The resource metadata is static\<close>



























section \<open>Traces of whole request sequences\<close>

lemma tracer_inv_startup: "tracer_inv (startup res db t0 rnd)"
  by (simp add: startup_def tracer_inv_def)

lemma run_requests_inv:
  "tracer_inv w \<Longrightarrow> current w = [] \<Longrightarrow>
     tracer_inv (run_requests sn reqs w) \<and> current (run_requests sn reqs w) = []"
proof (induction reqs arbitrary: w)
  case Nil
  then show ?case by simp
next
  case (Cons req reqs)
  obtain r w' where rw: "run_handler sn req w = (r, w')" by (cases "run_handler sn req w")
  from scopedD[OF scoped_run_handler Cons.prems(1) rw] Cons.prems(2)
  have "tracer_inv w'" "current w' = []" by simp_all
  from Cons.IH[OF this] rw show ?case by simp
qed

lemma span_ok_of_inv:
  assumes "tracer_inv w" "current w = []"
  shows "list_all (span_ok (queue w)) (queue w)"
proof -
  have "span_ok (queue w) c" if "queue_ok (clock w) [] (queue w) c" for c
    using that by (auto simp: queue_ok_def span_ok_def closed_by_def split: option.splits)
  with assms show ?thesis by (auto simp: tracer_inv_def list_all_iff)
qed

section \<open>Running the handlers symbolically\<close>

lemma delay_nonneg: "0 \<le> a \<Longrightarrow> 0 < m \<Longrightarrow> \<not> a + rat_of_int (int r mod m) < 0"
proof -
  assume "0 \<le> a" "0 < m"
  then have "0 \<le> rat_of_int (int r mod m)" by simp
  with \<open>0 \<le> a\<close> show ?thesis by linarith
qed

lemmas prog_defs = ret_def raise_exn_def bnd_def thn_def draw_def random_choice_def randint_def
  random_random_def uniform_def time_sleep_def start_span_def update_span_def set_attribute_def
  record_exception_def set_status_def record_failure_def finalize_def end_span_def
  start_as_current_span_def simulate_db_query_def simulate_cache_check_def get_books_db_def
  set_books_db_def try_except_def discard_def delay_nonneg flush_def

lemma startup_simps:
  "current bookshop_at_startup = []"
  "queue bookshop_at_startup = []"
  "BOOKS_DB bookshop_at_startup = BOOKS_DB_initial"
  "clock bookshop_at_startup = 0"
  "rand_pos bookshop_at_startup = 0"
  "next_id bookshop_at_startup = 0"
  "rand bookshop_at_startup = (\<lambda>i. 7 * i + 1)"
  by (simp_all add: bookshop_at_startup_def startup_def)

lemma not_found_text: "sublist ''not found'' ''Book not found''"
proof -
  have "''Book not found'' = ''Book '' @ ''not found'' @ []" by simp
  then show ?thesis unfolding sublist_def by blast
qed

lemma choice_of_three: "[True, False, False] ! (r mod 3) = (r mod 3 = 0)"
proof -
  have "r mod 3 = 0 \<or> r mod 3 = 1 \<or> r mod 3 = 2" by arith
  then show ?thesis by auto
qed




lemma unit_float_nonneg: "0 \<le> unit_float r"
  by (simp add: unit_float_def)

lemma work_delay_nonneg: "\<not> 1 / 10 + 2 * unit_float r / 5 < 0"
proof -
  have "0 \<le> 1 / 10 + 2 * unit_float r / 5" using unit_float_nonneg[of r] by simp
  then show ?thesis by simp
qed






section \<open>The claims\<close>



text \<open>
  Claim C2. For every order whose book id is not in the catalog, \<open>create_order\<close>
  produces exactly two spans: \<open>validate_book\<close>, with status \<open>ERROR\<close> and an error
  detail that contains ``not found'', and the root \<open>create_order\<close>, also \<open>ERROR\<close>;
  the caller gets the failure \<open>HTTPException 404 Book not found\<close> as a result value and
  the catalog is unchanged.
\<close>

theorem create_order_unknown_book:
  assumes "map_of (BOOKS_DB w) (book_id order) = None" and "current w = []"
  shows "fst (create_order order w) = Inl (HTTPException 404 ''Book not found'') \<and>
    current (snd (create_order order w)) = [] \<and>
    BOOKS_DB (snd (create_order order w)) = BOOKS_DB w \<and>
    (\<exists>validate root e.
       queue (snd (create_order order w)) = queue w @ [validate, root] \<and>
       name root = ''create_order'' \<and> name validate = ''validate_book'' \<and>
       parent_span_id root = None \<and>
       parent_span_id validate = Some (span_id root) \<and>
       trace_id validate = trace_id root \<and>
       status validate = ERROR \<and> error_detail validate = Some e \<and>
       sublist ''not found'' (detail e) \<and>
       status root = ERROR)"
  using assms not_found_text by (simp add: create_order_def prog_defs)

theorem create_order_unknown_book_witness:
  "map_of (BOOKS_DB bookshop_at_startup) 999 = None \<and> current bookshop_at_startup = [] \<and>
   fst (create_order \<lparr>book_id = 999, quantity = 1, customer_email = ''a@b.c''\<rparr> bookshop_at_startup)
     = Inl (HTTPException 404 ''Book not found'') \<and>
   (\<exists>validate root.
       queue (snd (create_order \<lparr>book_id = 999, quantity = 1, customer_email = ''a@b.c''\<rparr>
          bookshop_at_startup)) = [validate, root] \<and>
       status validate = ERROR \<and> status root = ERROR)"
proof -
  have h1: "map_of (BOOKS_DB bookshop_at_startup)
      (book_id \<lparr>book_id = 999, quantity = 1, customer_email = ''a@b.c''\<rparr>) = None"
    by (simp add: startup_simps BOOKS_DB_initial_def)
  have h2: "current bookshop_at_startup = []" by (simp add: startup_simps)
  from create_order_unknown_book[OF h1 h2] h1 h2 show ?thesis
    by (auto simp: startup_simps)
qed

text \<open>
  Claim C3. The cache-lookup simulator hits with probability one in three on every call:
  it consumes one draw of the random source, the hit depends on that draw alone (the next
  call reads the next draw), and exactly one of the three equally likely outcomes of the
  draw is a hit.
\<close>

theorem simulate_cache_check_one_in_three:
  "fst (simulate_cache_check key w) = Inr (rand w (rand_pos w) mod 3 = 0) \<and>
   snd (simulate_cache_check key w) = w\<lparr>rand_pos := Suc (rand_pos w)\<rparr> \<and>
   fst (simulate_cache_check key' (snd (simulate_cache_check key w))) =
     Inr (rand w (Suc (rand_pos w)) mod 3 = 0) \<and>
   {r. r < 3 \<and> fst (simulate_cache_check key (w\<lparr>rand := \<lambda>_. r\<rparr>)) = Inr True} = {0}"
proof -
  have a: "\<And>k v. simulate_cache_check k v =
      (Inr (rand v (rand_pos v) mod 3 = 0), v\<lparr>rand_pos := Suc (rand_pos v)\<rparr>)"
    by (simp add: simulate_cache_check_def random_choice_def bnd_def draw_def ret_def
        choice_of_three)
  have "{r. r < 3 \<and> fst (simulate_cache_check key (w\<lparr>rand := \<lambda>_. r\<rparr>)) = Inr True} = {0}"
    by (auto simp: a)
  then show ?thesis by (simp add: a)
qed

theorem simulate_cache_check_one_in_three_witness:
  "fst (simulate_cache_check ''book_2'' bookshop_at_startup) = Inr False \<and>
   card {r. r < 3 \<and>
     fst (simulate_cache_check ''book_2'' (bookshop_at_startup\<lparr>rand := \<lambda>_. r\<rparr>)) = Inr True} = 1"
  using simulate_cache_check_one_in_three[of "''book_2''" bookshop_at_startup "''book_2''"]
  by (simp add: startup_simps)

text \<open>
  Claim C5. For every span produced by any handler, \<open>end_time \<ge> start_time\<close>, and for
  every non-root span the parent's interval contains the child's interval. Stated for the
  spans queued after any finite sequence of requests to a freshly started process, with
  any catalog, clock reading and random source: each of them satisfies \<open>span_ok\<close>.
\<close>

theorem handler_span_intervals:
  "list_all (span_ok (queue (run_requests sn reqs (startup res db t0 rnd))))
     (queue (run_requests sn reqs (startup res db t0 rnd)))"
proof -
  have "current (startup res db t0 rnd) = []" by (simp add: startup_def)
  from run_requests_inv[OF tracer_inv_startup this] show ?thesis
    by (simp add: span_ok_of_inv)
qed

theorem handler_span_intervals_witness:
  "list_all
     (span_ok (queue (run_requests ''bookshop-service''
        [GET_books None None, GET_work, POST_orders \<lparr>book_id = 999, quantity = 1, customer_email = ''a@b.c''\<rparr>]
        (startup (resource_bookshop Map.empty) BOOKS_DB_initial 0 (\<lambda>i. 7 * i + 1)))))
     (queue (run_requests ''bookshop-service''
        [GET_books None None, GET_work, POST_orders \<lparr>book_id = 999, quantity = 1, customer_email = ''a@b.c''\<rparr>]
        (startup (resource_bookshop Map.empty) BOOKS_DB_initial 0 (\<lambda>i. 7 * i + 1))))"
  by (rule handler_span_intervals)

text \<open>
  Claim C7. For every order whose book exists but whose quantity exceeds the stock,
  \<open>create_order\<close> records the error on the \<open>check_inventory\<close> span, fails with
  \<open>HTTPException 400 Insufficient stock\<close> as a result value, and leaves the catalog
  unchanged.
\<close>

theorem create_order_insufficient_stock:
  assumes "map_of (BOOKS_DB w) (book_id order) = Some b" and "stock b < quantity order"
    and "current w = []"
  shows "fst (create_order order w) = Inl (HTTPException 400 ''Insufficient stock'') \<and>
    current (snd (create_order order w)) = [] \<and>
    BOOKS_DB (snd (create_order order w)) = BOOKS_DB w \<and>
    (\<exists>validate inventory root.
       queue (snd (create_order order w)) = queue w @ [validate, inventory, root] \<and>
       name root = ''create_order'' \<and> name validate = ''validate_book'' \<and>
       name inventory = ''check_inventory'' \<and>
       parent_span_id inventory = Some (span_id root) \<and>
       status inventory = ERROR \<and>
       error_detail inventory = Some (HTTPException 400 ''Insufficient stock'') \<and>
       attributes inventory ''error'' = Some (ABool True) \<and>
       attributes inventory ''available_stock'' = Some (AInt (stock b)) \<and>
       attributes inventory ''requested_quantity'' = Some (AInt (quantity order)) \<and>
       status validate = OK \<and> status root = ERROR)"
  using assms by (simp add: create_order_def prog_defs)

theorem create_order_insufficient_stock_witness:
  "map_of (BOOKS_DB bookshop_at_startup) 2 =
     Some \<lparr>ident = 2, title = ''1984'', author = ''George Orwell'', price = 1499 / 100, stock = 32\<rparr> \<and>
   (32 :: int) < 33 \<and> current bookshop_at_startup = [] \<and>
   fst (create_order \<lparr>book_id = 2, quantity = 33, customer_email = ''a@b.c''\<rparr> bookshop_at_startup)
     = Inl (HTTPException 400 ''Insufficient stock'') \<and>
   BOOKS_DB (snd (create_order \<lparr>book_id = 2, quantity = 33, customer_email = ''a@b.c''\<rparr>
      bookshop_at_startup)) = BOOKS_DB_initial"
proof -
  let ?b = "\<lparr>ident = 2, title = ''1984'', author = ''George Orwell'', price = 1499 / 100, stock = 32\<rparr>"
  let ?o = "\<lparr>book_id = 2, quantity = 33, customer_email = ''a@b.c''\<rparr>"
  have h1: "map_of (BOOKS_DB bookshop_at_startup) (book_id ?o) = Some ?b"
    by (simp add: startup_simps BOOKS_DB_initial_def)
  have h2: "stock ?b < quantity ?o" by simp
  have h3: "current bookshop_at_startup = []" by (simp add: startup_simps)
  from create_order_insufficient_stock[OF h1 h2 h3] h1 h3 show ?thesis
    by (auto simp: startup_simps)
qed







text \<open>
  Claim C9. Ending a span a second time signals \<open>DoubleEndError\<close>, changes nothing, and
  the span stands in the export queue once, before and after the second call.
\<close>

theorem end_span_twice:
  assumes inv: "tracer_inv w" and first: "fst (end_span h st w) = Inr ()"
  shows "end_span h st' (snd (end_span h st w)) = (Inl DoubleEndError, snd (end_span h st w)) \<and>
    length (filter (\<lambda>s. span_id s = h) (queue (snd (end_span h st w)))) = 1 \<and>
    length (filter (\<lambda>s. span_id s = h)
      (queue (snd (end_span h st' (snd (end_span h st w)))))) = 1"
proof -
  from first obtain s where f: "find (\<lambda>s. span_id s = h) (current w) = Some s"
    by (cases "find (\<lambda>s. span_id s = h) (current w)") (auto simp: end_span_def)
  then have s: "s \<in> set (current w)" "span_id s = h"
    by (auto simp: find_Some_iff)
  let ?s' = "s\<lparr>end_time := Some (clock w), status := finalize (status s) st\<rparr>"
  let ?w' = "w\<lparr>current := filter (\<lambda>s. span_id s \<noteq> h) (current w), queue := queue w @ [?s']\<rparr>"
  from f have e: "end_span h st w = (Inr (), ?w')" by (simp add: end_span_def)
  from inv s have lt: "h < next_id w" by (auto simp: tracer_inv_def list_all_iff)
  from inv have "distinct (map span_id (current w @ queue w))" by (simp add: tracer_inv_def)
  with s have "h \<notin> span_id ` set (queue w)" by auto
  then have none: "filter (\<lambda>s. span_id s = h) (queue w) = []"
    by (auto simp: filter_empty_conv)
  have "find (\<lambda>s. span_id s = h) (filter (\<lambda>s. span_id s \<noteq> h) (current w)) = None"
    by (simp add: find_None_iff)
  then have second: "end_span h st' ?w' = (Inl DoubleEndError, ?w')"
    using lt by (simp add: end_span_def)
  have "length (filter (\<lambda>s. span_id s = h) (queue ?w')) = 1"
    using none s by simp
  with e second show ?thesis by simp
qed

theorem end_span_twice_witness:
  "tracer_inv (snd (start_span ''get_book'' bookshop_at_startup)) \<and>
   fst (end_span 1 OK (snd (start_span ''get_book'' bookshop_at_startup))) = Inr () \<and>
   fst (end_span 1 OK (snd (end_span 1 OK (snd (start_span ''get_book'' bookshop_at_startup)))))
     = Inl DoubleEndError \<and>
   length (queue (snd (end_span 1 OK (snd (end_span 1 OK
     (snd (start_span ''get_book'' bookshop_at_startup))))))) = 1"
proof -
  let ?w = "snd (start_span ''get_book'' bookshop_at_startup)"
  have "tracer_inv bookshop_at_startup"
    unfolding bookshop_at_startup_def by (rule tracer_inv_startup)
  then have h1: "tracer_inv ?w" using tracer_inv_start_span by blast
  have h2: "fst (end_span 1 OK ?w) = Inr ()"
    by (simp add: start_span_def end_span_def startup_simps)
  have q: "queue ?w = []" by (simp add: start_span_def startup_simps)
  from end_span_twice[OF h1 h2, of OK] h1 h2 q show ?thesis
    by (auto simp: end_span_def split: option.splits)
qed

text \<open>
  Claim C6. Whenever the injected fault of \<open>do_work\<close> fires (the fourth draw of the
  request, read as a number of the unit interval, is below \<open>0.3\<close>), the root span
  \<open>work.parent\<close> is closed with status \<open>ERROR\<close> and carries the failure, and the
  handler still returns its normal result.
\<close>

theorem do_work_injected_fault:
  assumes "current w = []" and "unit_float (rand w (rand_pos w + 3)) < 3 / 10"
  shows "fst (do_work w) = Inr [(''result'', ''done'')] \<and> current (snd (do_work w)) = [] \<and>
    (\<exists>c0 c1 c2 parent.
       queue (snd (do_work w)) = queue w @ [c0, c1, c2, parent] \<and>
       name parent = ''work.parent'' \<and> parent_span_id parent = None \<and>
       status parent = ERROR \<and>
       error_detail parent = Some (RuntimeError ''simulated failure'') \<and>
       parent_span_id c0 = Some (span_id parent) \<and>
       parent_span_id c1 = Some (span_id parent) \<and>
       parent_span_id c2 = Some (span_id parent) \<and>
       status c0 = OK \<and> status c1 = OK \<and> status c2 = OK)"
  using assms
  by (simp add: do_work_def prog_defs work_delay_nonneg numeral_3_eq_3)

theorem do_work_injected_fault_witness:
  "current (startup (resource_ecommerce Map.empty) [] 0 (\<lambda>_. 5)) = [] \<and>
   unit_float (rand (startup (resource_ecommerce Map.empty) [] 0 (\<lambda>_. 5))
     (rand_pos (startup (resource_ecommerce Map.empty) [] 0 (\<lambda>_. 5)) + 3)) < 3 / 10 \<and>
   fst (do_work (startup (resource_ecommerce Map.empty) [] 0 (\<lambda>_. 5))) = Inr [(''result'', ''done'')] \<and>
   (\<exists>c0 c1 c2 parent.
       queue (snd (do_work (startup (resource_ecommerce Map.empty) [] 0 (\<lambda>_. 5)))) = [c0, c1, c2, parent] \<and>
       status parent = ERROR \<and>
       error_detail parent = Some (RuntimeError ''simulated failure''))"
proof -
  let ?w = "startup (resource_ecommerce Map.empty) [] 0 (\<lambda>_. 5)"
  have h1: "current ?w = []" by (simp add: startup_def)
  have h2: "unit_float (rand ?w (rand_pos ?w + 3)) < 3 / 10"
    by (simp add: unit_float_def startup_def)
  have q: "queue ?w = []" by (simp add: startup_def)
  from do_work_injected_fault[OF h1 h2] h1 h2 q show ?thesis
    by auto
qed



end
